theory Spec2Isabelle
  imports Complex_Main "HOL-Library.Sublist"
begin

section \<open>Data model (types.ts)\<close>

text \<open>
  The session status is the string union \<^verbatim>\<open>'idle' | 'connecting' | 'connected' | 'error'\<close>,
  the transcript role the union \<^verbatim>\<open>'user' | 'model'\<close>. \<^verbatim>\<open>error: string | null\<close> is an
  option. The field \<^verbatim>\<open>text\<close> of a transcription item is written \<open>text'\<close>, and
  \<^verbatim>\<open>type\<close> is written \<open>type'\<close>.
\<close>

datatype status = Idle | Connecting | Connected | Error

record SessionState =
  isActive :: bool
  isMuted :: bool
  isScreenSharing :: bool
  status :: status
  error :: "string option"

datatype role = User | Model

record TranscriptionItem =
  type' :: role
  text' :: string
  timestamp :: int

section \<open>Browser objects the component holds\<close>

text \<open>
  A media stream is the list of its tracks (\<^verbatim>\<open>getTracks()\<close>); a track is an identifier
  and its kind. Timer handles and playback source nodes are identifiers. Every call the
  component makes on one of these objects is appended to a trace of effects, so that
  "the track was stopped" is a statement about the trace.
\<close>

datatype track_kind = AudioTrack | VideoTrack

type_synonym MediaStreamTrack = "nat \<times> track_kind"
type_synonym MediaStream = "MediaStreamTrack list"

datatype effect =
    TrackStop nat
  | ClearInterval nat
  | SourceStart nat real
  | SourceStop nat

datatype js_error = JsError (name: string) (message: string)

definition getVideoTracks :: "MediaStream \<Rightarrow> MediaStreamTrack list" where
  "getVideoTracks ms = filter (\<lambda>t. snd t = VideoTrack) ms"

definition stop_tracks :: "MediaStream \<Rightarrow> effect list" where
  \<comment> \<open>\<^verbatim>\<open>stream.getTracks().forEach(t => t.stop())\<close>\<close>
  "stop_tracks ms = map (\<lambda>t. TrackStop (fst t)) ms"

text \<open>
  An updater passed to \<^verbatim>\<open>setTranscriptions\<close> and not yet run by React: the arrow
  function of line 204 or of line 207. Its body reads, when it runs, the accumulator
  of the call of \<^verbatim>\<open>startLiveSession\<close> in which it was created; the number of that
  call stands for the closure.
\<close>

datatype updater = AppendUserItem nat | AppendModelItem nat

text \<open>
  The state of the App component: the two \<^verbatim>\<open>useState\<close> cells, the queue of updaters
  of the transcript cell that wait for the next render, the refs, the trace of effects,
  and the number of source nodes created so far (\<^verbatim>\<open>createBufferSource\<close> returns a
  new node each time). Every call of \<^verbatim>\<open>startLiveSession\<close> that reaches lines 105 and
  106 declares a fresh pair of accumulators, which the callbacks of that call capture:
  \<open>calls\<close> counts these calls, and the two accumulator fields map the number of a
  call to its variable. A ref that holds an object the model does not look into (an
  audio context, the session promise) is a flag: set or null. Times of the playback
  clock and durations are real numbers of seconds. \<^verbatim>\<open>audioSourcesRef\<close> is a
  JavaScript Set, which iterates in insertion order: a list without duplicates.
\<close>

record app =
  session :: SessionState
  transcriptions :: "TranscriptionItem list"
  pendingTranscriptions :: "updater list"
  inputAudioCtx :: bool
  outputAudioCtx :: bool
  nextStartTime :: real
  audioSources :: "nat list"
  screenStream :: "MediaStream option"
  micStream :: "MediaStream option"
  sessionPromise :: bool
  frameInterval :: "nat option"
  calls :: nat
  currentInputTranscription :: "nat \<Rightarrow> string"
  currentOutputTranscription :: "nat \<Rightarrow> string"
  effects :: "effect list"
  sourcesCreated :: nat

definition initial_app :: app where
  "initial_app =
     \<lparr> session = \<lparr> isActive = False, isMuted = False, isScreenSharing = False,
                   status = Idle, error = None \<rparr>,
       transcriptions = [],
       pendingTranscriptions = [],
       inputAudioCtx = False,
       outputAudioCtx = False,
       nextStartTime = 0,
       audioSources = [],
       screenStream = None,
       micStream = None,
       sessionPromise = False,
       frameInterval = None,
       calls = 0,
       currentInputTranscription = (\<lambda>c. []),
       currentOutputTranscription = (\<lambda>c. []),
       effects = [],
       sourcesCreated = 0 \<rparr>"

section \<open>State updates\<close>

text \<open>
  \<^verbatim>\<open>setSession(prev => f(prev))\<close> is modelled as applying the updater to the cell at
  the call. The updaters of this cell read nothing but \<^verbatim>\<open>prev\<close> and are applied in
  the order of their calls, so this is the state the component renders once the
  handler is over.

  The updaters of \<^verbatim>\<open>setTranscriptions\<close> read more than \<^verbatim>\<open>prev\<close>: an accumulator,
  which the handler clears right after the call, and the clock. \<^verbatim>\<open>setTranscriptions\<close>
  only queues the updater. React runs the queue, in order, at the next render, which
  comes after the handler has returned: \<open>render\<close> below, where \<open>dateNow i\<close> is what
  \<^verbatim>\<open>Date.now()\<close> returns to the updater at position \<open>i\<close> of the queue.
\<close>

definition setSession :: "(SessionState \<Rightarrow> SessionState) \<Rightarrow> app \<Rightarrow> app" where
  "setSession f s = s\<lparr>session := f (session s)\<rparr>"

definition setTranscriptions :: "updater \<Rightarrow> app \<Rightarrow> app" where
  "setTranscriptions u s = s\<lparr>pendingTranscriptions := pendingTranscriptions s @ [u]\<rparr>"

definition slice_last :: "nat \<Rightarrow> 'a list \<Rightarrow> 'a list" where
  \<comment> \<open>\<^verbatim>\<open>prev.slice(-n)\<close> for \<open>n > 0\<close>: the last \<open>n\<close> elements, or all if there are fewer\<close>
  "slice_last n xs = drop (length xs - n) xs"

definition run_updater ::
  "app \<Rightarrow> int \<Rightarrow> updater \<Rightarrow> TranscriptionItem list \<Rightarrow> TranscriptionItem list" where
  \<comment> \<open>the bodies of the arrow functions of lines 204 and 207, run in state \<open>s\<close>\<close>
  "run_updater s now u prev =
     slice_last 10 prev @
       [case u of
          AppendUserItem c \<Rightarrow>
            \<lparr>type' = User, text' = currentInputTranscription s c, timestamp = now\<rparr>
        | AppendModelItem c \<Rightarrow>
            \<lparr>type' = Model, text' = currentOutputTranscription s c, timestamp = now\<rparr>]"

definition render :: "(nat \<Rightarrow> int) \<Rightarrow> app \<Rightarrow> app" where
  "render dateNow s =
     s\<lparr>transcriptions :=
         foldl (\<lambda>prev iu. run_updater s (dateNow (fst iu)) (snd iu) prev)
           (transcriptions s) (enumerate 0 (pendingTranscriptions s)),
       pendingTranscriptions := []\<rparr>"

section \<open>Teardown (App.tsx, lines 41 to 61)\<close>

text \<open>
  Each guard of \<^verbatim>\<open>stopAllStreams\<close> is a truthiness test: a stream ref is null or an
  object, and the timer ref is null or a number, where the number 0 is falsy too.
\<close>

definition stopAllStreams :: "app \<Rightarrow> app" where
  "stopAllStreams s =
     (let s1 = (case screenStream s of
                  None \<Rightarrow> s
                | Some ms \<Rightarrow> s\<lparr>effects := effects s @ stop_tracks ms, screenStream := None\<rparr>);
          s2 = (case micStream s1 of
                  None \<Rightarrow> s1
                | Some ms \<Rightarrow> s1\<lparr>effects := effects s1 @ stop_tracks ms, micStream := None\<rparr>);
          s3 = (case frameInterval s2 of
                  None \<Rightarrow> s2
                | Some t \<Rightarrow>
                    if t = 0 then s2
                    else s2\<lparr>effects := effects s2 @ [ClearInterval t], frameInterval := None\<rparr>)
      in s3\<lparr>effects := effects s3 @ map SourceStop (audioSources s3), audioSources := []\<rparr>)"

definition handleStopSession :: "app \<Rightarrow> app" where
  "handleStopSession s =
     setSession (\<lambda>prev. prev\<lparr>isActive := False, isScreenSharing := False, status := Idle\<rparr>)
       (stopAllStreams s)"

section \<open>Starting a session (App.tsx, lines 63 to 107 and 225 to 232)\<close>

text \<open>
  \<^verbatim>\<open>String.prototype.includes\<close>, written \<open>js_includes\<close>: the pattern occurs
  somewhere in the string.
\<close>

primrec js_includes :: "string \<Rightarrow> string \<Rightarrow> bool" where
  "js_includes [] p = (p = [])"
| "js_includes (c # cs) p = (prefix p (c # cs) \<or> js_includes cs p)"

definition screen_blocked_message :: string where
  "screen_blocked_message =
     ''Screen sharing is blocked by your browser's permissions policy. Try opening this app in a full window (pop-out) or check your browser settings to allow display capture.''"

definition fallback_message :: string where
  "fallback_message = ''Permission denied or browser incompatible.''"

definition start_failed :: "js_error \<Rightarrow> app \<Rightarrow> app" where
  \<comment> \<open>the \<^verbatim>\<open>catch (err)\<close> block of \<^verbatim>\<open>startLiveSession\<close>; the empty message is falsy\<close>
  "start_failed err s =
     stopAllStreams
       (setSession (\<lambda>prev. prev\<lparr>status := Error,
          error := Some (if message err = [] then fallback_message else message err)\<rparr>) s)"

text \<open>
  \<^verbatim>\<open>startLiveSession\<close> up to the point where the connection is requested. The two
  awaited acquisitions are inputs: \<open>Inl err\<close> when the promise rejects with \<open>err\<close>,
  \<open>Inr stream\<close> when it resolves. A display stream without a video track makes the
  assignment to \<^verbatim>\<open>getVideoTracks()[0].onended\<close> throw a TypeError, whose message
  (the engine's) is the input \<open>type_error_message\<close>. Creating the client and the audio
  contexts and calling \<^verbatim>\<open>ai.live.connect\<close> are taken to return normally. A call that
  gets as far as lines 105 and 106 is given the next number, and its two accumulators
  start empty.
\<close>

definition startLiveSession ::
  "(js_error + MediaStream) \<Rightarrow> (js_error + MediaStream) \<Rightarrow> string \<Rightarrow> app \<Rightarrow> app" where
  "startLiveSession mic display type_error_message s =
     (let s1 = setSession (\<lambda>prev. prev\<lparr>status := Connecting, error := None\<rparr>) s;
          s2 = s1\<lparr>inputAudioCtx := True, outputAudioCtx := True\<rparr>
      in case mic of
           Inl err \<Rightarrow> start_failed err s2
         | Inr micStream' \<Rightarrow>
             (let s3 = s2\<lparr>micStream := Some micStream'\<rparr>
              in case display of
                   Inl displayErr \<Rightarrow>
                     if name displayErr = ''NotAllowedError''
                        \<or> js_includes (message displayErr) ''permissions policy''
                     then start_failed (JsError ''Error'' screen_blocked_message) s3
                     else start_failed displayErr s3
                 | Inr screenStream' \<Rightarrow>
                     (let s4 = s3\<lparr>screenStream := Some screenStream'\<rparr>
                      in case getVideoTracks screenStream' of
                           [] \<Rightarrow> start_failed (JsError ''TypeError'' type_error_message) s4
                         | _ # _ \<Rightarrow>
                             (let c = Suc (calls s4)
                              in s4\<lparr>calls := c,
                                    currentInputTranscription :=
                                      (currentInputTranscription s4)(c := []),
                                    currentOutputTranscription :=
                                      (currentOutputTranscription s4)(c := []),
                                    sessionPromise := True\<rparr>))))"

section \<open>Channel callbacks (App.tsx, lines 121 to 222)\<close>

text \<open>
  \<^verbatim>\<open>onopen\<close> updates the session and then dereferences the input audio context
  (\<^verbatim>\<open>inputAudioCtxRef.current!\<close>): were the ref null, the handler would throw there,
  before the frame timer is set. The audio graph and the frames the timer sends are
  not part of the state.
\<close>

definition onopen :: "nat \<Rightarrow> app \<Rightarrow> app" where
  \<comment> \<open>\<open>timer\<close> is the handle \<^verbatim>\<open>window.setInterval\<close> returns\<close>
  "onopen timer s =
     (let s1 = setSession (\<lambda>prev. prev\<lparr>status := Connected, isActive := True,
                                        isScreenSharing := True\<rparr>) s
      in if inputAudioCtx s1 then s1\<lparr>frameInterval := Some timer\<rparr> else s1)"

definition onerror :: "app \<Rightarrow> app" where
  "onerror s =
     handleStopSession
       (setSession (\<lambda>prev. prev\<lparr>status := Error,
          error := Some ''Connection lost or failed.''\<rparr>) s)"

definition onclose :: "app \<Rightarrow> app" where
  "onclose s = handleStopSession s"

section \<open>Inbound messages (App.tsx, lines 167 to 212)\<close>

text \<open>
  What \<^verbatim>\<open>onmessage\<close> reads of a server message: the value of the chain
  \<^verbatim>\<open>serverContent?.modelTurn?.parts[0]?.inlineData?.data\<close> (a string or undefined),
  the two flags, and the two transcription objects. A transcription object may be
  absent (\<open>None\<close>), and its \<^verbatim>\<open>text\<close> is optional in turn: \<open>Some None\<close> is an object
  without text, which \<^verbatim>\<open>+=\<close> appends as the string \<^verbatim>\<open>undefined\<close>.
\<close>

record LiveServerMessage =
  audioData :: "string option"
  interrupted :: bool
  inputTranscription :: "string option option"
  outputTranscription :: "string option option"
  turnComplete :: bool

text \<open>
  What the handler reads of its environment while it runs: the playback clock
  \<^verbatim>\<open>outputAudioCtxRef.current.currentTime\<close>, the outcome of
  \<^verbatim>\<open>decodeAudioData(decode(base64Audio), ...)\<close> (module \<^verbatim>\<open>utils/audioUtils\<close>, whose
  code is not part of the sources: \<open>Some d\<close> is a buffer of duration \<open>d\<close>, \<open>None\<close> a
  thrown exception), and the number of the call of \<^verbatim>\<open>startLiveSession\<close> that created
  the handler, whose accumulators its closure holds.
\<close>

record msg_env =
  currentTime :: real
  decoded :: "real option"
  call :: nat

definition set_add :: "nat \<Rightarrow> nat list \<Rightarrow> nat list" where
  \<comment> \<open>\<^verbatim>\<open>Set.prototype.add\<close>\<close>
  "set_add h hs = (if h \<in> set hs then hs else hs @ [h])"

definition append_text :: "string \<Rightarrow> string option \<Rightarrow> string" where
  \<comment> \<open>\<^verbatim>\<open>acc += transcription.text\<close>\<close>
  "append_text acc t = acc @ (case t of None \<Rightarrow> ''undefined'' | Some x \<Rightarrow> x)"

text \<open>
  Lines 169 to 185. \<open>Inl\<close> is the state in which the handler is left when decoding
  throws (the promise of the async handler rejects and the rest of the handler does
  not run); \<open>Inr\<close> is the state with which the handler goes on. The empty string is
  falsy.
\<close>

definition handleAudio :: "msg_env \<Rightarrow> LiveServerMessage \<Rightarrow> app \<Rightarrow> app + app" where
  "handleAudio env m s =
     (case audioData m of
        None \<Rightarrow> Inr s
      | Some base64Audio \<Rightarrow>
          if base64Audio \<noteq> [] \<and> outputAudioCtx s then
            (let s1 = s\<lparr>nextStartTime := max (nextStartTime s) (currentTime env)\<rparr>
             in case decoded env of
                  None \<Rightarrow> Inl s1
                | Some duration \<Rightarrow>
                    (let source = sourcesCreated s1
                     in Inr (s1\<lparr>effects := effects s1 @ [SourceStart source (nextStartTime s1)],
                                nextStartTime := nextStartTime s1 + duration,
                                audioSources := set_add source (audioSources s1),
                                sourcesCreated := Suc source\<rparr>)))
          else Inr s)"

definition handleInterruption :: "LiveServerMessage \<Rightarrow> app \<Rightarrow> app" where
  \<comment> \<open>lines 188 to 192\<close>
  "handleInterruption m s =
     (if interrupted m
      then s\<lparr>effects := effects s @ map SourceStop (audioSources s),
             audioSources := [],
             nextStartTime := 0\<rparr>
      else s)"

definition handleTranscriptions :: "msg_env \<Rightarrow> LiveServerMessage \<Rightarrow> app \<Rightarrow> app" where
  \<comment> \<open>lines 195 to 200\<close>
  "handleTranscriptions env m s =
     (let c = call env;
          s1 = (case inputTranscription m of
                  None \<Rightarrow> s
                | Some t \<Rightarrow>
                    s\<lparr>currentInputTranscription := (currentInputTranscription s)
                        (c := append_text (currentInputTranscription s c) t)\<rparr>)
      in case outputTranscription m of
           None \<Rightarrow> s1
         | Some t \<Rightarrow>
             s1\<lparr>currentOutputTranscription := (currentOutputTranscription s1)
                 (c := append_text (currentOutputTranscription s1 c) t)\<rparr>)"

text \<open>
  Lines 202 to 211. The two guards read the accumulators at once; the item of each
  updater is built when the updater runs. The accumulators are cleared before the
  handler returns.
\<close>

definition handleTurnComplete :: "msg_env \<Rightarrow> LiveServerMessage \<Rightarrow> app \<Rightarrow> app" where
  "handleTurnComplete env m s =
     (if turnComplete m then
        (let c = call env;
             s1 = (if currentInputTranscription s c \<noteq> []
                   then setTranscriptions (AppendUserItem c) s
                   else s);
             s2 = (if currentOutputTranscription s1 c \<noteq> []
                   then setTranscriptions (AppendModelItem c) s1
                   else s1)
         in s2\<lparr>currentInputTranscription := (currentInputTranscription s2)(c := []),
               currentOutputTranscription := (currentOutputTranscription s2)(c := [])\<rparr>)
      else s)"

definition onmessage :: "msg_env \<Rightarrow> LiveServerMessage \<Rightarrow> app \<Rightarrow> app + app" where
  "onmessage env m s =
     (case handleAudio env m s of
        Inl s' \<Rightarrow> Inl s'
      | Inr s' \<Rightarrow>
          Inr (handleTurnComplete env m (handleTranscriptions env m (handleInterruption m s'))))"

definition source_onended :: "nat \<Rightarrow> app \<Rightarrow> app" where
  \<comment> \<open>line 184: \<^verbatim>\<open>source.onended = () => audioSourcesRef.current.delete(source)\<close>\<close>
  "source_onended source s = s\<lparr>audioSources := removeAll source (audioSources s)\<rparr>"

section \<open>The component as a transition system\<close>

text \<open>
  The events that reach the component, each handled to completion before the next:
  a click on the start button, the channel's four callbacks, a click on the stop
  button, the end of the screen's video track (line 101 registers
  \<^verbatim>\<open>handleStopSession\<close> for it), the natural end of a playback source, and a render
  of the component by React.
\<close>

datatype event =
    StartRequest "js_error + MediaStream" "js_error + MediaStream" string
  | ChannelOpen nat
  | ChannelMessage msg_env LiveServerMessage
  | ChannelError
  | ChannelClose
  | StopRequest
  | VideoTrackEnded
  | SourceEnded nat
  | Render "nat \<Rightarrow> int"

fun step :: "event \<Rightarrow> app \<Rightarrow> app" where
  "step (StartRequest mic display tm) s = startLiveSession mic display tm s"
| "step (ChannelOpen timer) s = onopen timer s"
| "step (ChannelMessage env m) s = (case onmessage env m s of Inl s' \<Rightarrow> s' | Inr s' \<Rightarrow> s')"
| "step ChannelError s = onerror s"
| "step ChannelClose s = onclose s"
| "step StopRequest s = handleStopSession s"
| "step VideoTrackEnded s = handleStopSession s"
| "step (SourceEnded source) s = source_onended source s"
| "step (Render dateNow) s = render dateNow s"

definition run :: "event list \<Rightarrow> app \<Rightarrow> app" where
  "run es s = foldl (\<lambda>s' e. step e s') s es"

section \<open>Events of interest\<close>

text \<open>
  An event is steady when it is not a message that carries the interruption flag and,
  if it is a message, the buffer decoded for it has a non-negative duration. An event
  has no audio when it is not a message with an audio payload.
\<close>

definition steady :: "event \<Rightarrow> bool" where
  "steady e =
     (case e of
        ChannelMessage env m \<Rightarrow>
          \<not> interrupted m \<and> (case decoded env of None \<Rightarrow> True | Some d \<Rightarrow> 0 \<le> d)
      | _ \<Rightarrow> True)"

definition no_audio :: "event \<Rightarrow> bool" where
  "no_audio e = (case e of ChannelMessage env m \<Rightarrow> audioData m = None | _ \<Rightarrow> True)"

text \<open>
  The invariant that ties the two flags to the status: an idle session is neither
  active nor sharing the screen.
\<close>

definition idle_flags :: "app \<Rightarrow> bool" where
  "idle_flags s =
     (if status (session s) = Idle
      then \<not> isActive (session s) \<and> \<not> isScreenSharing (session s)
      else True)"

section \<open>Transcript turns\<close>

text \<open>The text a transcription field of a message adds to its accumulator.\<close>

definition delta_text :: "string option option \<Rightarrow> string" where
  "delta_text t = (case t of None \<Rightarrow> [] | Some u \<Rightarrow> append_text [] u)"

text \<open>
  A turn is the list of messages up to and including the one that carries
  \<^verbatim>\<open>turnComplete\<close>, each with the environment its handler runs in. A message
  completes when its handler returns: it has no audio payload, or decoding succeeds.
  A turn of the channel of call \<open>c\<close> commits one item when exactly one of the two roles
  has accumulated text over its messages; \<open>turn_role\<close> is that role.
\<close>

type_synonym turn = "(msg_env \<times> LiveServerMessage) list"

definition completes :: "msg_env \<times> LiveServerMessage \<Rightarrow> bool" where
  "completes em =
     (case audioData (snd em) of
        None \<Rightarrow> True
      | Some _ \<Rightarrow> (case decoded (fst em) of None \<Rightarrow> False | Some _ \<Rightarrow> True))"

definition turn_input :: "turn \<Rightarrow> string" where
  "turn_input ms = concat (map (\<lambda>em. delta_text (inputTranscription (snd em))) ms)"

definition turn_output :: "turn \<Rightarrow> string" where
  "turn_output ms = concat (map (\<lambda>em. delta_text (outputTranscription (snd em))) ms)"

definition one_item_turn :: "nat \<Rightarrow> turn \<Rightarrow> bool" where
  "one_item_turn c ms =
     (ms \<noteq> [] \<and> turnComplete (snd (last ms))
      \<and> list_all (\<lambda>em. \<not> turnComplete (snd em)) (butlast ms)
      \<and> list_all (\<lambda>em. call (fst em) = c) ms
      \<and> list_all completes ms
      \<and> ((turn_input ms = []) \<noteq> (turn_output ms = [])))"

definition turn_role :: "turn \<Rightarrow> role" where
  "turn_role ms = (if turn_input ms \<noteq> [] then User else Model)"

definition turn_events :: "turn \<Rightarrow> event list" where
  "turn_events ms = map (\<lambda>em. ChannelMessage (fst em) (snd em)) ms"

text \<open>
  A rendered turn is a turn and the clock of the render that follows its last message,
  before the next message arrives. That render runs the updater the turn has queued;
  the accumulators are empty by then, and \<open>rendered_item\<close> is the item it appends.
\<close>

type_synonym rendered_turn = "turn \<times> (nat \<Rightarrow> int)"

definition rendered_turn_events :: "rendered_turn \<Rightarrow> event list" where
  "rendered_turn_events tr = turn_events (fst tr) @ [Render (snd tr)]"

definition rendered_item :: "rendered_turn \<Rightarrow> TranscriptionItem" where
  "rendered_item tr = \<lparr>type' = turn_role (fst tr), text' = [], timestamp = snd tr 0\<rparr>"

section \<open>Example states\<close>

text \<open>
  A connected session with one buffer scheduled: a start request whose two acquisitions
  succeed, the channel's open callback, and one audio message.
\<close>

definition connected_example :: app where
  "connected_example =
     run [StartRequest (Inr [(1, AudioTrack)]) (Inr [(2, VideoTrack)]) [],
          ChannelOpen 7,
          ChannelMessage
            \<lparr>currentTime = 0, decoded = Some 1, call = 1\<rparr>
            \<lparr>audioData = Some ''AAAA'', interrupted = False, inputTranscription = None,
              outputTranscription = None, turnComplete = False\<rparr>]
       initial_app"

text \<open>
  An audio message, and the environment of a handler of the first call at a given
  playback clock, for the examples.
\<close>

definition audio_message :: LiveServerMessage where
  "audio_message =
     \<lparr>audioData = Some ''AAAA'', interrupted = False, inputTranscription = None,
       outputTranscription = None, turnComplete = False\<rparr>"

definition at_clock :: "real \<Rightarrow> msg_env" where
  "at_clock t = \<lparr>currentTime = t, decoded = Some 1, call = 1\<rparr>"

text \<open>
  The spec's events as messages: an interruption, a delta of the user's transcript, the
  end of a turn, and a message that ends a turn with text of both roles.
\<close>

definition interrupt_message :: LiveServerMessage where
  "interrupt_message =
     \<lparr>audioData = None, interrupted = True, inputTranscription = None,
       outputTranscription = None, turnComplete = False\<rparr>"

definition input_delta :: "string \<Rightarrow> LiveServerMessage" where
  "input_delta t =
     \<lparr>audioData = None, interrupted = False, inputTranscription = Some (Some t),
       outputTranscription = None, turnComplete = False\<rparr>"

definition turn_complete_message :: LiveServerMessage where
  "turn_complete_message =
     \<lparr>audioData = None, interrupted = False, inputTranscription = None,
       outputTranscription = None, turnComplete = True\<rparr>"

definition both_message :: LiveServerMessage where
  "both_message =
     \<lparr>audioData = None, interrupted = False, inputTranscription = Some (Some ''hi''),
       outputTranscription = Some (Some ''hello''), turnComplete = True\<rparr>"

text \<open>
  The connected session with a full transcript log, and the turn of the spec's scenario:
  the deltas \<^verbatim>\<open>hel\<close> and \<^verbatim>\<open>lo\<close>, then the end of the turn.
\<close>

definition full_log_example :: app where
  "full_log_example =
     connected_example
       \<lparr>transcriptions := replicate 11 \<lparr>type' = User, text' = [], timestamp = 0\<rparr>\<rparr>"

definition hello_turn :: turn where
  "hello_turn = [(at_clock 0, input_delta ''hel''), (at_clock 0, input_delta ''lo''),
     (at_clock 0, turn_complete_message)]"

section \<open>Facts about teardown and start\<close>

lemmas teardown_defs = stopAllStreams_def handleStopSession_def setSession_def stop_tracks_def

lemmas message_defs = onmessage_def handleAudio_def handleInterruption_def
  handleTranscriptions_def handleTurnComplete_def setTranscriptions_def set_add_def Let_def

lemma fresh_accumulator [simp]: "(\<lambda>c. [])(n := []) = (\<lambda>c. [])"
  by auto

lemma connected_example_value:
  "connected_example =
     \<lparr> session = \<lparr> isActive = True, isMuted = False, isScreenSharing = True,
                   status = Connected, error = None \<rparr>,
       transcriptions = [],
       pendingTranscriptions = [],
       inputAudioCtx = True,
       outputAudioCtx = True,
       nextStartTime = 1,
       audioSources = [0],
       screenStream = Some [(2, VideoTrack)],
       micStream = Some [(1, AudioTrack)],
       sessionPromise = True,
       frameInterval = Some 7,
       calls = 1,
       currentInputTranscription = (\<lambda>c. []),
       currentOutputTranscription = (\<lambda>c. []),
       effects = [SourceStart 0 0],
       sourcesCreated = 1 \<rparr>"
  by (simp add: connected_example_def run_def initial_app_def startLiveSession_def onopen_def
      getVideoTracks_def message_defs setSession_def)

lemma stopAllStreams_session [simp]: "session (stopAllStreams s) = session s"
  by (simp add: stopAllStreams_def Let_def split: option.splits)

lemma stopAllStreams_refs [simp]:
  "screenStream (stopAllStreams s) = None"
  "micStream (stopAllStreams s) = None"
  "audioSources (stopAllStreams s) = []"
  by (simp_all add: stopAllStreams_def Let_def split: option.splits)

lemma stopAllStreams_timer:
  "frameInterval (stopAllStreams s) = (if frameInterval s = Some 0 then Some 0 else None)"
  by (simp add: stopAllStreams_def Let_def split: option.splits)

lemma stopAllStreams_effects:
  "effects (stopAllStreams s) =
     effects s
     @ (case screenStream s of None \<Rightarrow> [] | Some ms \<Rightarrow> stop_tracks ms)
     @ (case micStream s of None \<Rightarrow> [] | Some ms \<Rightarrow> stop_tracks ms)
     @ (case frameInterval s of None \<Rightarrow> [] | Some t \<Rightarrow> if t = 0 then [] else [ClearInterval t])
     @ map SourceStop (audioSources s)"
  by (simp add: stopAllStreams_def Let_def split: option.splits)

lemma stopAllStreams_cursor [simp]: "nextStartTime (stopAllStreams s) = nextStartTime s"
  by (simp add: stopAllStreams_def Let_def split: option.splits)

section \<open>Channel error\<close>

text \<open>
  C1. The claim: when the channel reports an error, the session ends in status
  \<^verbatim>\<open>'error'\<close> with the error field set, after full teardown. The handler first sets
  status \<^verbatim>\<open>'error'\<close> and the message, then calls \<^verbatim>\<open>handleStopSession\<close>, whose update
  sets the status to \<^verbatim>\<open>'idle'\<close>: on the connected example the session ends idle, with
  the message kept and the teardown done.
\<close>

theorem onerror_ends_idle:
  "status (session connected_example) = Connected
   \<and> status (session (step ChannelError connected_example)) = Idle
   \<and> status (session (step ChannelError connected_example)) \<noteq> Error
   \<and> error (session (step ChannelError connected_example)) = Some ''Connection lost or failed.''
   \<and> effects (step ChannelError connected_example)
       = [SourceStart 0 0, TrackStop 2, TrackStop 1, ClearInterval 7, SourceStop 0]"
  by (simp add: connected_example_value onerror_def teardown_defs)

section \<open>Failed start\<close>

lemma start_failed_session:
  "session (start_failed err s) =
     (session s)\<lparr>status := Error,
        error := Some (if message err = [] then fallback_message else message err)\<rparr>"
  by (simp add: start_failed_def setSession_def)

lemma start_failed_refs:
  "screenStream (start_failed err s) = None"
  "micStream (start_failed err s) = None"
  "audioSources (start_failed err s) = []"
  by (simp_all add: start_failed_def)

lemma start_failed_effects:
  "effects (start_failed err s) = effects (stopAllStreams s)"
  by (simp add: start_failed_def stopAllStreams_effects setSession_def)

text \<open>
  C2, as the claim states it: after a media acquisition fails at session start, the
  session status is back to \<^verbatim>\<open>'idle'\<close>. It is not: when the microphone request is
  refused on the initial state, the status is not \<^verbatim>\<open>'idle'\<close>.
\<close>

theorem start_mic_refused_not_idle:
  "\<not> status (session (startLiveSession (Inl (JsError ''NotAllowedError'' ''Permission denied''))
        (Inr [(2, VideoTrack)]) [] initial_app)) = Idle"
  by (simp add: startLiveSession_def start_failed_session Let_def)

text \<open>
  C2, amended. When the microphone request or the screen request rejects, the start
  operation catches the failure and sets the session status to \<^verbatim>\<open>'error'\<close>; the
  error field holds a non-empty message: the screen-sharing-blocked text when the
  screen request fails with \<^verbatim>\<open>NotAllowedError\<close> or with a message that contains
  \<^verbatim>\<open>permissions policy\<close>, otherwise the failure's own message, or the generic text
  when that message is empty. Both stream refs are cleared, and every track of the
  microphone stream acquired before the screen request failed is stopped.
\<close>

theorem start_failure_sets_error:
  assumes fail: "isl mic \<or> isl display"
    and s': "s' = startLiveSession mic display tm s"
  shows "status (session s') = Error
    \<and> (\<exists>msg. error (session s') = Some msg \<and> msg \<noteq> [])
    \<and> micStream s' = None \<and> screenStream s' = None
    \<and> (\<forall>err. mic = Inl err \<longrightarrow>
          error (session s') = Some (if message err = [] then fallback_message else message err))
    \<and> (\<forall>ms err. mic = Inr ms \<and> display = Inl err \<longrightarrow>
          error (session s') =
            Some (if name err = ''NotAllowedError'' \<or> js_includes (message err) ''permissions policy''
                  then screen_blocked_message
                  else if message err = [] then fallback_message else message err)
          \<and> (\<forall>t \<in> set ms. TrackStop (fst t) \<in> set (effects s')))"
proof (cases mic)
  case (Inl err)
  then show ?thesis
    by (simp add: s' startLiveSession_def start_failed_session start_failed_refs Let_def
        fallback_message_def)
next
  case (Inr ms)
  with fail obtain err where d: "display = Inl err" by (cases display) auto
  have blocked: "screen_blocked_message \<noteq> []" by (simp add: screen_blocked_message_def)
  show ?thesis
    by (simp add: s' Inr d startLiveSession_def start_failed_session start_failed_refs
        start_failed_effects stopAllStreams_effects stop_tracks_def Let_def blocked
        fallback_message_def)
qed

text \<open>
  The theorem at the initial state, with the microphone granted and the screen request
  refused.
\<close>

theorem start_failure_sets_error_witness:
  "status (session (startLiveSession (Inr [(1, AudioTrack)])
       (Inl (JsError ''NotAllowedError'' ''Permission denied'')) [] initial_app)) = Error
   \<and> error (session (startLiveSession (Inr [(1, AudioTrack)])
       (Inl (JsError ''NotAllowedError'' ''Permission denied'')) [] initial_app))
       = Some screen_blocked_message
   \<and> micStream (startLiveSession (Inr [(1, AudioTrack)])
       (Inl (JsError ''NotAllowedError'' ''Permission denied'')) [] initial_app) = None
   \<and> TrackStop 1 \<in> set (effects (startLiveSession (Inr [(1, AudioTrack)])
       (Inl (JsError ''NotAllowedError'' ''Permission denied'')) [] initial_app))"
  using start_failure_sets_error [of "Inr [(1, AudioTrack)]"
      "Inl (JsError ''NotAllowedError'' ''Permission denied'')" _ "[]" initial_app, OF _ refl]
  by simp

section \<open>Facts about runs and the playback cursor\<close>

lemma run_Nil [simp]: "run [] s = s"
  by (simp add: run_def)

lemma run_Cons [simp]: "run (e # es) s = run es (step e s)"
  by (simp add: run_def)

lemma run_append: "run (es @ es') s = run es' (run es s)"
  by (simp add: run_def)

lemma start_failed_cursor [simp]: "nextStartTime (start_failed err s) = nextStartTime s"
  by (simp add: start_failed_def setSession_def)

lemma start_failed_ctx [simp]: "outputAudioCtx (start_failed err s) = outputAudioCtx s"
  by (simp add: start_failed_def stopAllStreams_def setSession_def Let_def split: option.splits)

lemma startLiveSession_cursor [simp]:
  "nextStartTime (startLiveSession mic display tm s) = nextStartTime s"
  by (simp add: startLiveSession_def setSession_def Let_def split: sum.splits list.splits)

lemma startLiveSession_ctx [simp]: "outputAudioCtx (startLiveSession mic display tm s)"
  by (simp add: startLiveSession_def setSession_def Let_def split: sum.splits list.splits)

lemma handleStopSession_cursor [simp]: "nextStartTime (handleStopSession s) = nextStartTime s"
  by (simp add: handleStopSession_def setSession_def)

lemma handleStopSession_ctx [simp]: "outputAudioCtx (handleStopSession s) = outputAudioCtx s"
  by (simp add: handleStopSession_def stopAllStreams_def setSession_def Let_def split: option.splits)

lemma onopen_cursor [simp]: "nextStartTime (onopen t s) = nextStartTime s"
  by (simp add: onopen_def setSession_def Let_def)

lemma onopen_ctx [simp]: "outputAudioCtx (onopen t s) = outputAudioCtx s"
  by (simp add: onopen_def setSession_def Let_def)

lemma onerror_cursor [simp]: "nextStartTime (onerror s) = nextStartTime s"
  by (simp add: onerror_def setSession_def)

lemma onerror_ctx [simp]: "outputAudioCtx (onerror s) = outputAudioCtx s"
  by (simp add: onerror_def setSession_def)

lemma handleTranscriptions_fields [simp]:
  "nextStartTime (handleTranscriptions env m s) = nextStartTime s"
  "outputAudioCtx (handleTranscriptions env m s) = outputAudioCtx s"
  "effects (handleTranscriptions env m s) = effects s"
  "audioSources (handleTranscriptions env m s) = audioSources s"
  "transcriptions (handleTranscriptions env m s) = transcriptions s"
  "pendingTranscriptions (handleTranscriptions env m s) = pendingTranscriptions s"
  "session (handleTranscriptions env m s) = session s"
  by (simp_all add: handleTranscriptions_def Let_def split: option.splits)

lemma handleTurnComplete_fields [simp]:
  "nextStartTime (handleTurnComplete env m s) = nextStartTime s"
  "outputAudioCtx (handleTurnComplete env m s) = outputAudioCtx s"
  "effects (handleTurnComplete env m s) = effects s"
  "audioSources (handleTurnComplete env m s) = audioSources s"
  "transcriptions (handleTurnComplete env m s) = transcriptions s"
  "session (handleTurnComplete env m s) = session s"
  by (simp_all add: handleTurnComplete_def setTranscriptions_def Let_def)

lemma render_fields [simp]:
  "nextStartTime (render dateNow s) = nextStartTime s"
  "outputAudioCtx (render dateNow s) = outputAudioCtx s"
  "effects (render dateNow s) = effects s"
  "audioSources (render dateNow s) = audioSources s"
  "session (render dateNow s) = session s"
  "pendingTranscriptions (render dateNow s) = []"
  "currentInputTranscription (render dateNow s) = currentInputTranscription s"
  "currentOutputTranscription (render dateNow s) = currentOutputTranscription s"
  by (simp_all add: render_def)

lemma handleInterruption_fields [simp]:
  "outputAudioCtx (handleInterruption m s) = outputAudioCtx s"
  "transcriptions (handleInterruption m s) = transcriptions s"
  "pendingTranscriptions (handleInterruption m s) = pendingTranscriptions s"
  "currentInputTranscription (handleInterruption m s) = currentInputTranscription s"
  "currentOutputTranscription (handleInterruption m s) = currentOutputTranscription s"
  "session (handleInterruption m s) = session s"
  by (simp_all add: handleInterruption_def)

lemma handleInterruption_not [simp]: "\<not> interrupted m \<Longrightarrow> handleInterruption m s = s"
  by (simp add: handleInterruption_def)

lemma handleAudio_ctx:
  "handleAudio env m s = Inr s' \<or> handleAudio env m s = Inl s' \<Longrightarrow> outputAudioCtx s' = outputAudioCtx s"
  by (auto simp: handleAudio_def Let_def split: option.splits if_splits)

lemma handleAudio_cursor:
  assumes "case decoded env of None \<Rightarrow> True | Some d \<Rightarrow> 0 \<le> d"
    and "handleAudio env m s = Inr s' \<or> handleAudio env m s = Inl s'"
  shows "nextStartTime s \<le> nextStartTime s'"
  using assms by (auto simp: handleAudio_def Let_def split: option.splits if_splits)

lemma step_ctx: "outputAudioCtx s \<Longrightarrow> outputAudioCtx (step e s)"
proof (cases e)
  case (ChannelMessage env m)
  assume "outputAudioCtx s"
  then show ?thesis
    using handleAudio_ctx [of env m s]
    by (auto simp: ChannelMessage onmessage_def split: sum.splits)
qed (simp_all add: onclose_def source_onended_def)

lemma run_ctx: "outputAudioCtx s \<Longrightarrow> outputAudioCtx (run es s)"
  by (induction es arbitrary: s) (simp_all add: step_ctx)

lemma step_cursor_mono:
  assumes "steady e"
  shows "nextStartTime s \<le> nextStartTime (step e s)"
proof (cases e)
  case (ChannelMessage env m)
  with assms have ni: "\<not> interrupted m"
    and d: "case decoded env of None \<Rightarrow> True | Some d \<Rightarrow> 0 \<le> d"
    by (simp_all add: steady_def)
  show ?thesis
    using handleAudio_cursor [OF d, of m s] ni
    by (auto simp: ChannelMessage onmessage_def handleInterruption_def split: sum.splits)
qed (simp_all add: onclose_def source_onended_def)

lemma run_cursor_mono:
  "\<forall>e \<in> set es. steady e \<Longrightarrow> nextStartTime s \<le> nextStartTime (run es s)"
proof (induction es arbitrary: s)
  case Nil
  then show ?case by simp
next
  case (Cons e es)
  have "nextStartTime s \<le> nextStartTime (step e s)"
    using Cons.prems by (simp add: step_cursor_mono)
  also have "\<dots> \<le> nextStartTime (run es (step e s))"
    using Cons.prems by (intro Cons.IH) simp
  finally show ?case by simp
qed

lemma handleAudio_schedules:
  assumes "audioData m = Some d" "d \<noteq> []" "decoded env = Some dur" "outputAudioCtx s"
  shows "handleAudio env m s =
     Inr (s\<lparr>nextStartTime := max (nextStartTime s) (currentTime env) + dur,
            effects := effects s
              @ [SourceStart (sourcesCreated s) (max (nextStartTime s) (currentTime env))],
            audioSources := set_add (sourcesCreated s) (audioSources s),
            sourcesCreated := Suc (sourcesCreated s)\<rparr>)"
  using assms by (simp add: handleAudio_def Let_def)

lemma handleAudio_skips:
  "audioData m = None \<Longrightarrow> handleAudio env m s = Inr s"
  by (simp add: handleAudio_def)

lemma onmessage_audio:
  assumes "audioData m = Some d" "d \<noteq> []" "decoded env = Some dur" "\<not> interrupted m"
    and "outputAudioCtx s"
  shows "\<exists>s'. onmessage env m s = Inr s'
     \<and> effects s' = effects s
         @ [SourceStart (sourcesCreated s) (max (nextStartTime s) (currentTime env))]
     \<and> nextStartTime s' = max (nextStartTime s) (currentTime env) + dur
     \<and> outputAudioCtx s'"
  using assms by (simp add: onmessage_def handleAudio_schedules)

section \<open>Playback scheduling\<close>

text \<open>
  C3, as the claim states it: each scheduled start time equals the prior cursor value
  (the prior start plus the prior buffer's duration). On the connected example the
  prior buffer started at 0 and lasted 1, so the cursor is 1; a buffer that arrives
  when the playback clock is at 5 is started at 5, not at 1.
\<close>

theorem late_buffer_starts_after_cursor:
  "nextStartTime connected_example = 0 + 1
   \<and> effects (step (ChannelMessage (at_clock 5) audio_message) connected_example)
       = [SourceStart 0 0, SourceStart 1 5]
   \<and> (5::real) \<noteq> nextStartTime connected_example"
  by (simp add: connected_example_value audio_message_def at_clock_def onmessage_def
      handleAudio_def)

text \<open>
  C3, amended. An audio message that is processed (non-empty payload, output context
  present, decoding succeeds) without the interruption flag schedules its buffer at
  the maximum of the cursor and the playback clock, and leaves the cursor at that
  start time plus the buffer's duration. For the next such message, after any run of
  steady events: its start time is the maximum of the cursor and the clock then, so it
  is at least the cursor the earlier message left (the earlier start plus the earlier
  duration), it equals the cursor of its own state exactly when the clock has not
  passed that cursor, and with a non-negative earlier duration the start times are
  non-decreasing.
\<close>

theorem audio_scheduling:
  assumes m1: "audioData m1 = Some d1" "d1 \<noteq> []" "decoded env1 = Some dur1" "\<not> interrupted m1"
    and ctx: "outputAudioCtx s"
    and s1: "s1 = step (ChannelMessage env1 m1) s"
    and es: "\<forall>e \<in> set es. steady e"
    and s1': "s1' = run es s1"
    and m2: "audioData m2 = Some d2" "d2 \<noteq> []" "decoded env2 = Some dur2" "\<not> interrupted m2"
    and s2: "s2 = step (ChannelMessage env2 m2) s1'"
  shows "onmessage env1 m1 s = Inr s1
    \<and> effects s1 = effects s
        @ [SourceStart (sourcesCreated s) (max (nextStartTime s) (currentTime env1))]
    \<and> nextStartTime s1 = max (nextStartTime s) (currentTime env1) + dur1
    \<and> onmessage env2 m2 s1' = Inr s2
    \<and> effects s2 = effects s1'
        @ [SourceStart (sourcesCreated s1') (max (nextStartTime s1') (currentTime env2))]
    \<and> nextStartTime s2 = max (nextStartTime s1') (currentTime env2) + dur2
    \<and> nextStartTime s1 \<le> max (nextStartTime s1') (currentTime env2)
    \<and> ((max (nextStartTime s1') (currentTime env2) = nextStartTime s1')
         = (currentTime env2 \<le> nextStartTime s1'))
    \<and> (0 \<le> dur1 \<longrightarrow>
          max (nextStartTime s) (currentTime env1) \<le> max (nextStartTime s1') (currentTime env2))"
proof -
  obtain r1 where r1: "onmessage env1 m1 s = Inr r1"
    and e1: "effects r1 = effects s
        @ [SourceStart (sourcesCreated s) (max (nextStartTime s) (currentTime env1))]"
    and c1: "nextStartTime r1 = max (nextStartTime s) (currentTime env1) + dur1"
    and x1: "outputAudioCtx r1"
    using onmessage_audio [OF m1 ctx] by blast
  have s1_eq: "s1 = r1" by (simp add: s1 r1)
  have x1': "outputAudioCtx s1'" by (simp add: s1' s1_eq x1 run_ctx)
  obtain r2 where r2: "onmessage env2 m2 s1' = Inr r2"
    and e2: "effects r2 = effects s1'
        @ [SourceStart (sourcesCreated s1') (max (nextStartTime s1') (currentTime env2))]"
    and c2: "nextStartTime r2 = max (nextStartTime s1') (currentTime env2) + dur2"
    using onmessage_audio [OF m2 x1'] by blast
  have s2_eq: "s2 = r2" by (simp add: s2 r2)
  have mono: "nextStartTime s1 \<le> nextStartTime s1'"
    unfolding s1' by (rule run_cursor_mono [OF es])
  have le: "nextStartTime s1 \<le> max (nextStartTime s1') (currentTime env2)"
    using mono by simp
  have eq: "(max (nextStartTime s1') (currentTime env2) = nextStartTime s1')
         = (currentTime env2 \<le> nextStartTime s1')"
    by auto
  have starts: "0 \<le> dur1 \<longrightarrow>
      max (nextStartTime s) (currentTime env1) \<le> max (nextStartTime s1') (currentTime env2)"
    using le c1 s1_eq by (simp add: max_def split: if_splits)
  show ?thesis
    using r1 e1 c1 r2 e2 c2 le eq starts by (simp add: s1_eq s2_eq)
qed

text \<open>
  The theorem on the connected example: a buffer of duration 1 arrives at clock 5 and
  the next one at clock 5.5, with nothing in between.
\<close>

theorem audio_scheduling_witness:
  "onmessage (at_clock 5) audio_message connected_example
     = Inr (step (ChannelMessage (at_clock 5) audio_message) connected_example)
   \<and> nextStartTime (step (ChannelMessage (at_clock 5) audio_message) connected_example) = 6
   \<and> effects (step (ChannelMessage (at_clock (11 / 2)) audio_message)
        (step (ChannelMessage (at_clock 5) audio_message) connected_example))
       = [SourceStart 0 0, SourceStart 1 5, SourceStart 2 6]"
  using audio_scheduling [of audio_message "''AAAA''" "at_clock 5" 1 connected_example _ "[]" _
      audio_message "''AAAA''" "at_clock (11 / 2)" 1,
      OF _ _ _ _ _ refl _ refl _ _ _ _ refl]
  by (simp add: audio_message_def at_clock_def connected_example_value message_defs)

section \<open>Monotone playback cursor\<close>

text \<open>
  C7. Along any run of events none of which is a message with the interruption flag,
  and whose decoded buffers have non-negative durations, the playback cursor
  \<^verbatim>\<open>nextStartTime\<close> does not decrease, whatever the playback clock reads.
\<close>

theorem cursor_never_decreases:
  assumes "\<forall>e \<in> set es. steady e"
  shows "nextStartTime s \<le> nextStartTime (run es s)"
  using assms by (rule run_cursor_mono)

text \<open>The theorem on a stop, an audio message and the end of a source.\<close>

theorem cursor_never_decreases_witness:
  "nextStartTime connected_example
     \<le> nextStartTime (run [StopRequest, ChannelMessage (at_clock 5) audio_message,
           SourceEnded 0] connected_example)
   \<and> nextStartTime connected_example = 1"
  using cursor_never_decreases [of "[StopRequest, ChannelMessage (at_clock 5) audio_message,
           SourceEnded 0]" connected_example]
  by (simp add: steady_def audio_message_def at_clock_def connected_example_value)

section \<open>Interruption\<close>

lemma step_cursor_zero:
  assumes "no_audio e" "nextStartTime s = 0"
  shows "nextStartTime (step e s) = 0"
proof (cases e)
  case (ChannelMessage env m)
  with assms show ?thesis
    by (simp add: no_audio_def onmessage_def handleAudio_skips handleInterruption_def)
qed (simp_all add: assms onclose_def source_onended_def)

lemma run_cursor_zero:
  "\<forall>e \<in> set es. no_audio e \<Longrightarrow> nextStartTime s = 0 \<Longrightarrow> nextStartTime (run es s) = 0"
  by (induction es arbitrary: s) (simp_all add: step_cursor_zero)

lemma handleInterruption_flag:
  "interrupted m \<Longrightarrow>
     handleInterruption m s =
       s\<lparr>effects := effects s @ map SourceStop (audioSources s),
         audioSources := [], nextStartTime := 0\<rparr>"
  by (simp add: handleInterruption_def)

lemma handleAudio_effects:
  assumes "handleAudio env m s = Inr s1"
  shows "(s1 = s) \<or>
     (\<exists>t. effects s1 = effects s @ [SourceStart (sourcesCreated s) t]
         \<and> audioSources s1 = set_add (sourcesCreated s) (audioSources s))"
  using assms by (auto simp: handleAudio_def Let_def split: option.splits if_splits)

text \<open>
  C4. After a message with the interruption flag has been processed (its handler
  returned), the set of active sources is empty and the playback cursor is 0; the
  handler stopped every source that was active before, and a source the same message
  scheduled. The next buffer, after any run of events without audio, is scheduled at
  the maximum of 0 and the playback clock: at or after the clock, whatever the cursor
  was before the interruption.
\<close>

theorem interruption_resets:
  assumes int: "interrupted m" and ret: "onmessage env m s = Inr s'"
    and ctx: "outputAudioCtx s"
    and quiet: "\<forall>e \<in> set es. no_audio e"
    and m2: "audioData m2 = Some d2" "d2 \<noteq> []" "decoded env2 = Some dur2"
  shows "audioSources s' = [] \<and> nextStartTime s' = 0
    \<and> (\<exists>new. effects s' = effects s @ new
          \<and> (\<forall>h \<in> set (audioSources s). SourceStop h \<in> set new)
          \<and> (\<forall>h t. SourceStart h t \<in> set new \<longrightarrow> SourceStop h \<in> set new))
    \<and> (\<exists>s2 rest. onmessage env2 m2 (run es s') = Inr s2
          \<and> effects s2 = effects (run es s')
               @ SourceStart (sourcesCreated (run es s')) (max 0 (currentTime env2)) # rest)
    \<and> currentTime env2 \<le> max 0 (currentTime env2)"
proof -
  obtain s1 where a: "handleAudio env m s = Inr s1"
    and s': "s' = handleTurnComplete env m (handleTranscriptions env m (handleInterruption m s1))"
    using ret by (auto simp: onmessage_def split: sum.splits)
  have i: "handleInterruption m s1 =
       s1\<lparr>effects := effects s1 @ map SourceStop (audioSources s1),
          audioSources := [], nextStartTime := 0\<rparr>"
    using int by (rule handleInterruption_flag)
  have src: "audioSources s' = []" and cur: "nextStartTime s' = 0"
    and eff: "effects s' = effects s1 @ map SourceStop (audioSources s1)"
    by (simp_all add: s' i)
  have new: "\<exists>new. effects s' = effects s @ new
          \<and> (\<forall>h \<in> set (audioSources s). SourceStop h \<in> set new)
          \<and> (\<forall>h t. SourceStart h t \<in> set new \<longrightarrow> SourceStop h \<in> set new)"
    using handleAudio_effects [OF a]
  proof
    assume "s1 = s"
    then have "effects s' = effects s @ map SourceStop (audioSources s)"
      by (simp add: eff)
    moreover have "\<forall>h \<in> set (audioSources s). SourceStop h \<in> set (map SourceStop (audioSources s))"
      by simp
    moreover have "\<forall>h t. SourceStart h t \<in> set (map SourceStop (audioSources s))
        \<longrightarrow> SourceStop h \<in> set (map SourceStop (audioSources s))"
      by auto
    ultimately show ?thesis by blast
  next
    assume "\<exists>t. effects s1 = effects s @ [SourceStart (sourcesCreated s) t]
         \<and> audioSources s1 = set_add (sourcesCreated s) (audioSources s)"
    then obtain t where e1: "effects s1 = effects s @ [SourceStart (sourcesCreated s) t]"
      and a1: "audioSources s1 = set_add (sourcesCreated s) (audioSources s)"
      by blast
    let ?new = "SourceStart (sourcesCreated s) t # map SourceStop (audioSources s1)"
    have "effects s' = effects s @ ?new" by (simp add: eff e1)
    moreover have "\<forall>h \<in> set (audioSources s). SourceStop h \<in> set ?new"
      by (auto simp: a1 set_add_def)
    moreover have "\<forall>h u. SourceStart h u \<in> set ?new \<longrightarrow> SourceStop h \<in> set ?new"
      by (auto simp: a1 set_add_def)
    ultimately show ?thesis by blast
  qed
  have ctx1: "outputAudioCtx s1" using handleAudio_ctx [of env m s s1] a ctx by simp
  have ctx': "outputAudioCtx (run es s')" by (rule run_ctx) (simp add: s' ctx1)
  have zero: "nextStartTime (run es s') = 0" using quiet cur by (rule run_cursor_zero)
  obtain r where r: "handleAudio env2 m2 (run es s') = Inr r"
    and er: "effects r = effects (run es s')
        @ [SourceStart (sourcesCreated (run es s')) (max 0 (currentTime env2))]"
    using handleAudio_schedules [OF m2 ctx'] by (simp add: zero)
  have "\<exists>rest. effects (handleInterruption m2 r) = effects r @ rest"
    by (simp add: handleInterruption_def)
  then obtain rest where "effects (handleInterruption m2 r) = effects r @ rest" ..
  then have nxt: "\<exists>s2 rest. onmessage env2 m2 (run es s') = Inr s2
          \<and> effects s2 = effects (run es s')
               @ SourceStart (sourcesCreated (run es s')) (max 0 (currentTime env2)) # rest"
    by (simp add: onmessage_def r er)
  show ?thesis using src cur new nxt by simp
qed

text \<open>
  The theorem on the connected example: an interruption, a transcript delta, then a
  buffer at clock 5.
\<close>

theorem interruption_resets_witness:
  "audioSources (step (ChannelMessage (at_clock 0) interrupt_message) connected_example) = []
   \<and> nextStartTime (step (ChannelMessage (at_clock 0) interrupt_message) connected_example) = 0
   \<and> effects (step (ChannelMessage (at_clock 0) interrupt_message) connected_example)
       = [SourceStart 0 0, SourceStop 0]
   \<and> effects (run [ChannelMessage (at_clock 0) interrupt_message,
                    ChannelMessage (at_clock 2) (input_delta ''hi''),
                    ChannelMessage (at_clock 5) audio_message] connected_example)
       = [SourceStart 0 0, SourceStop 0, SourceStart 1 5]"
  using interruption_resets [of interrupt_message "at_clock 0" connected_example
      "step (ChannelMessage (at_clock 0) interrupt_message) connected_example"
      "[ChannelMessage (at_clock 2) (input_delta ''hi'')]"
      audio_message "''AAAA''" "at_clock 5" 1]
  by (simp add: interrupt_message_def input_delta_def audio_message_def at_clock_def
      connected_example_value message_defs no_audio_def append_text_def)

section \<open>Stop\<close>

lemma onmessage_session:
  "onmessage env m s = Inr s' \<or> onmessage env m s = Inl s' \<Longrightarrow> session s' = session s"
  by (auto simp: onmessage_def handleAudio_def Let_def split: sum.splits option.splits if_splits)

lemma startLiveSession_status:
  "status (session (startLiveSession mic display tm s)) \<noteq> Idle"
  by (simp add: startLiveSession_def start_failed_session setSession_def Let_def
      split: sum.splits list.splits)

lemma step_idle_flags: "idle_flags s \<Longrightarrow> idle_flags (step e s)"
proof (cases e)
  case (ChannelMessage env m)
  assume "idle_flags s"
  then show ?thesis
    using onmessage_session [of env m s]
    by (auto simp: ChannelMessage idle_flags_def split: sum.splits)
next
  case (StartRequest mic display tm)
  then show ?thesis by (simp add: idle_flags_def startLiveSession_status)
qed (simp_all add: idle_flags_def onopen_def onerror_def onclose_def handleStopSession_def
      setSession_def source_onended_def Let_def)

lemma run_idle_flags: "idle_flags s \<Longrightarrow> idle_flags (run es s)"
  by (induction es arbitrary: s) (simp_all add: step_idle_flags)

lemma initial_idle_flags: "idle_flags initial_app"
  by (simp add: idle_flags_def initial_app_def)

lemma handleStopSession_session:
  "session (handleStopSession s)
     = (session s)\<lparr>isActive := False, isScreenSharing := False, status := Idle\<rparr>"
  by (simp add: handleStopSession_def setSession_def)

lemma handleStopSession_refs [simp]:
  "screenStream (handleStopSession s) = None"
  "micStream (handleStopSession s) = None"
  "audioSources (handleStopSession s) = []"
  by (simp_all add: handleStopSession_def setSession_def)

lemma handleStopSession_timer:
  "frameInterval (handleStopSession s) = (if frameInterval s = Some 0 then Some 0 else None)"
  by (simp add: handleStopSession_def setSession_def stopAllStreams_timer)

lemma handleStopSession_effects:
  "effects (handleStopSession s) = effects (stopAllStreams s)"
  by (simp add: handleStopSession_def setSession_def)

lemma stopAllStreams_noop:
  assumes "screenStream s = None" "micStream s = None"
    and "frameInterval s = None \<or> frameInterval s = Some 0"
    and "audioSources s = []"
  shows "stopAllStreams s = s"
  using assms by (auto simp: stopAllStreams_def)

lemma stop_noop:
  assumes "status (session s) = Idle" "\<not> isActive (session s)" "\<not> isScreenSharing (session s)"
    and "screenStream s = None" "micStream s = None"
    and "frameInterval s = None \<or> frameInterval s = Some 0"
    and "audioSources s = []"
  shows "handleStopSession s = s"
proof -
  have "stopAllStreams s = s" using assms(4-7) by (rule stopAllStreams_noop)
  then show ?thesis using assms(1-3) by (simp add: handleStopSession_def setSession_def)
qed

lemma stop_twice: "handleStopSession (handleStopSession s) = handleStopSession s"
  by (rule stop_noop) (simp_all add: handleStopSession_session handleStopSession_timer)

text \<open>
  C8. In a state the component can reach from its initial state, with status
  \<^verbatim>\<open>'idle'\<close>, no screen stream, no microphone stream, no frame timer and no active
  source, the stop operation changes nothing: the state, and with it the trace of
  stream, timer and source operations, is the same afterwards. From any state, stop
  followed by stop is a single stop.
\<close>

theorem stop_when_idle_is_noop:
  assumes reach: "s = run es initial_app"
    and idle: "status (session s) = Idle"
    and none: "screenStream s = None" "micStream s = None" "frameInterval s = None"
      "audioSources s = []"
  shows "handleStopSession s = s
    \<and> effects (handleStopSession s) = effects s
    \<and> handleStopSession (handleStopSession t) = handleStopSession t"
proof -
  have "idle_flags s" unfolding reach by (rule run_idle_flags [OF initial_idle_flags])
  with idle have "\<not> isActive (session s)" "\<not> isScreenSharing (session s)"
    by (simp_all add: idle_flags_def)
  with idle none have "handleStopSession s = s" by (intro stop_noop) simp_all
  then show ?thesis by (simp add: stop_twice)
qed

text \<open>The theorem on the connected example after a stop request.\<close>

theorem stop_when_idle_is_noop_witness:
  "status (session (step StopRequest connected_example)) = Idle
   \<and> handleStopSession (step StopRequest connected_example) = step StopRequest connected_example
   \<and> effects (handleStopSession (step StopRequest connected_example))
       = [SourceStart 0 0, TrackStop 2, TrackStop 1, ClearInterval 7, SourceStop 0]
   \<and> handleStopSession (handleStopSession connected_example) = handleStopSession connected_example"
proof -
  let ?s = "step StopRequest connected_example"
  have reach: "?s = run [StartRequest (Inr [(1, AudioTrack)]) (Inr [(2, VideoTrack)]) [],
        ChannelOpen 7, ChannelMessage (at_clock 0) audio_message, StopRequest] initial_app"
    by (simp add: connected_example_def at_clock_def audio_message_def)
  have idle: "status (session ?s) = Idle"
    by (simp add: handleStopSession_session)
  have none: "screenStream ?s = None" "micStream ?s = None" "frameInterval ?s = None"
    "audioSources ?s = []"
    by (simp_all add: handleStopSession_timer connected_example_value)
  have eff: "effects ?s = [SourceStart 0 0, TrackStop 2, TrackStop 1, ClearInterval 7, SourceStop 0]"
    by (simp add: handleStopSession_effects stopAllStreams_effects stop_tracks_def
        connected_example_value)
  show ?thesis
    using stop_when_idle_is_noop [OF reach idle none, of connected_example] idle eff
    by simp
qed

text \<open>
  C9. The end of the screen's video track is handled as a stop request is: the
  resulting state is the same, the status is \<^verbatim>\<open>'idle'\<close>, every track of the screen
  stream and of the microphone stream is stopped and both refs are cleared, the frame
  timer (a positive handle) is cancelled, and every active source is stopped and the
  set cleared.
\<close>

theorem video_track_end_is_stop:
  assumes s': "s' = step VideoTrackEnded s"
  shows "s' = step StopRequest s
    \<and> status (session s') = Idle \<and> \<not> isActive (session s') \<and> \<not> isScreenSharing (session s')
    \<and> screenStream s' = None \<and> micStream s' = None \<and> audioSources s' = []
    \<and> (\<exists>new. effects s' = effects s @ new
          \<and> (\<forall>ms t. screenStream s = Some ms \<and> t \<in> set ms \<longrightarrow> TrackStop (fst t) \<in> set new)
          \<and> (\<forall>ms t. micStream s = Some ms \<and> t \<in> set ms \<longrightarrow> TrackStop (fst t) \<in> set new)
          \<and> (\<forall>t. frameInterval s = Some t \<and> 0 < t \<longrightarrow> ClearInterval t \<in> set new)
          \<and> (\<forall>h \<in> set (audioSources s). SourceStop h \<in> set new))
    \<and> (frameInterval s = Some 0 \<or> frameInterval s' = None)"
proof -
  let ?new = "(case screenStream s of None \<Rightarrow> [] | Some ms \<Rightarrow> stop_tracks ms)
     @ (case micStream s of None \<Rightarrow> [] | Some ms \<Rightarrow> stop_tracks ms)
     @ (case frameInterval s of None \<Rightarrow> [] | Some t \<Rightarrow> if t = 0 then [] else [ClearInterval t])
     @ map SourceStop (audioSources s)"
  have eff: "effects s' = effects s @ ?new"
    by (simp add: s' handleStopSession_def setSession_def stopAllStreams_effects)
  have scr: "\<forall>ms t. screenStream s = Some ms \<and> t \<in> set ms \<longrightarrow> TrackStop (fst t) \<in> set ?new"
    by (auto simp: stop_tracks_def)
  have mic: "\<forall>ms t. micStream s = Some ms \<and> t \<in> set ms \<longrightarrow> TrackStop (fst t) \<in> set ?new"
    by (auto simp: stop_tracks_def)
  have tim: "\<forall>t. frameInterval s = Some t \<and> 0 < t \<longrightarrow> ClearInterval t \<in> set ?new"
    by auto
  have src: "\<forall>h \<in> set (audioSources s). SourceStop h \<in> set ?new"
    by auto
  have new: "\<exists>new. effects s' = effects s @ new
          \<and> (\<forall>ms t. screenStream s = Some ms \<and> t \<in> set ms \<longrightarrow> TrackStop (fst t) \<in> set new)
          \<and> (\<forall>ms t. micStream s = Some ms \<and> t \<in> set ms \<longrightarrow> TrackStop (fst t) \<in> set new)
          \<and> (\<forall>t. frameInterval s = Some t \<and> 0 < t \<longrightarrow> ClearInterval t \<in> set new)
          \<and> (\<forall>h \<in> set (audioSources s). SourceStop h \<in> set new)"
    using eff scr mic tim src by blast
  have rest: "s' = step StopRequest s"
    "status (session s') = Idle" "\<not> isActive (session s')" "\<not> isScreenSharing (session s')"
    "screenStream s' = None" "micStream s' = None" "audioSources s' = []"
    by (simp_all add: s' handleStopSession_def setSession_def)
  have timer: "frameInterval s = Some 0 \<or> frameInterval s' = None"
    by (simp add: s' handleStopSession_def setSession_def stopAllStreams_timer)
  show ?thesis using rest new timer by simp
qed

text \<open>The theorem on the connected example.\<close>

theorem video_track_end_is_stop_witness:
  "status (session connected_example) = Connected
   \<and> status (session (step VideoTrackEnded connected_example)) = Idle
   \<and> step VideoTrackEnded connected_example = step StopRequest connected_example
   \<and> frameInterval (step VideoTrackEnded connected_example) = None
   \<and> effects (step VideoTrackEnded connected_example)
       = [SourceStart 0 0, TrackStop 2, TrackStop 1, ClearInterval 7, SourceStop 0]"
  using video_track_end_is_stop [of "step VideoTrackEnded connected_example" connected_example]
  by (simp add: connected_example_value teardown_defs)

section \<open>Transcript aggregation\<close>

lemma handleAudio_transcript:
  assumes "handleAudio env m s = Inr s1"
  shows "transcriptions s1 = transcriptions s"
    and "pendingTranscriptions s1 = pendingTranscriptions s"
    and "currentInputTranscription s1 = currentInputTranscription s"
    and "currentOutputTranscription s1 = currentOutputTranscription s"
  using assms by (auto simp: handleAudio_def Let_def split: option.splits if_splits)

lemma handleTranscriptions_acc:
  "currentInputTranscription (handleTranscriptions env m s) (call env)
     = currentInputTranscription s (call env) @ delta_text (inputTranscription m)"
  "currentOutputTranscription (handleTranscriptions env m s) (call env)
     = currentOutputTranscription s (call env) @ delta_text (outputTranscription m)"
  by (simp_all add: handleTranscriptions_def delta_text_def append_text_def Let_def
      split: option.splits)

lemma handleTurnComplete_not:
  "\<not> turnComplete m \<Longrightarrow> handleTurnComplete env m s = s"
  by (simp add: handleTurnComplete_def)

lemma handleTurnComplete_acc:
  "turnComplete m \<Longrightarrow> currentInputTranscription (handleTurnComplete env m s) (call env) = []"
  "turnComplete m \<Longrightarrow> currentOutputTranscription (handleTurnComplete env m s) (call env) = []"
  by (simp_all add: handleTurnComplete_def Let_def)

lemma handleTurnComplete_queue:
  assumes "turnComplete m"
  shows "pendingTranscriptions (handleTurnComplete env m s) =
     pendingTranscriptions s
     @ (if currentInputTranscription s (call env) = [] then [] else [AppendUserItem (call env)])
     @ (if currentOutputTranscription s (call env) = [] then [] else [AppendModelItem (call env)])"
  using assms by (simp add: handleTurnComplete_def setTranscriptions_def Let_def)

lemma onmessage_returned:
  assumes "onmessage env m s = Inr s'"
  obtains s1 where "handleAudio env m s = Inr s1"
    and "s' = handleTurnComplete env m (handleTranscriptions env m (handleInterruption m s1))"
  using assms by (auto simp: onmessage_def split: sum.splits)

lemma onmessage_turn:
  assumes tc: "turnComplete m" and ret: "onmessage env m s = Inr s'"
  shows "currentInputTranscription s' (call env) = []
    \<and> currentOutputTranscription s' (call env) = []
    \<and> transcriptions s' = transcriptions s
    \<and> pendingTranscriptions s' =
        pendingTranscriptions s
        @ (if currentInputTranscription s (call env) @ delta_text (inputTranscription m) = []
           then [] else [AppendUserItem (call env)])
        @ (if currentOutputTranscription s (call env) @ delta_text (outputTranscription m) = []
           then [] else [AppendModelItem (call env)])"
proof -
  obtain s1 where a: "handleAudio env m s = Inr s1"
    and s': "s' = handleTurnComplete env m (handleTranscriptions env m (handleInterruption m s1))"
    using ret by (rule onmessage_returned)
  show ?thesis
    unfolding s'
    by (simp add: handleTurnComplete_acc [OF tc] handleTurnComplete_queue [OF tc]
        handleTranscriptions_acc handleAudio_transcript [OF a])
qed

lemma onmessage_delta:
  assumes tc: "\<not> turnComplete m" and ret: "onmessage env m s = Inr s'"
  shows "transcriptions s' = transcriptions s
    \<and> pendingTranscriptions s' = pendingTranscriptions s
    \<and> currentInputTranscription s' (call env)
        = currentInputTranscription s (call env) @ delta_text (inputTranscription m)
    \<and> currentOutputTranscription s' (call env)
        = currentOutputTranscription s (call env) @ delta_text (outputTranscription m)"
proof -
  obtain s1 where a: "handleAudio env m s = Inr s1"
    and s': "s' = handleTurnComplete env m (handleTranscriptions env m (handleInterruption m s1))"
    using ret by (rule onmessage_returned)
  show ?thesis
    unfolding s'
    by (simp add: handleTurnComplete_not [OF tc] handleTranscriptions_acc
        handleAudio_transcript [OF a])
qed

lemma render_one:
  "pendingTranscriptions s = [u] \<Longrightarrow>
     transcriptions (render dateNow s) = run_updater s (dateNow 0) u (transcriptions s)"
  by (simp add: render_def)

lemma render_two:
  "pendingTranscriptions s = [u, v] \<Longrightarrow>
     transcriptions (render dateNow s)
       = run_updater s (dateNow 1) v (run_updater s (dateNow 0) u (transcriptions s))"
  by (simp add: render_def)

text \<open>
  C5. The claim: at the end of a turn, one item with the accumulated text is appended
  for each role that has text, and the deltas \<^verbatim>\<open>hel\<close> and \<^verbatim>\<open>lo\<close> followed by the end
  of the turn add the user item \<^verbatim>\<open>hello\<close>. On the connected example the handler of
  the last message finds \<^verbatim>\<open>hello\<close> accumulated, queues the user's updater and clears
  the accumulator; the updater reads the accumulator when the render runs it, so the
  item that is appended has the empty text, not \<^verbatim>\<open>hello\<close>.
\<close>

theorem hello_scenario_commits_empty_text:
  "currentInputTranscription
     (run [ChannelMessage (at_clock 0) (input_delta ''hel''),
           ChannelMessage (at_clock 0) (input_delta ''lo'')] connected_example) 1 = ''hello''
   \<and> pendingTranscriptions
     (run [ChannelMessage (at_clock 0) (input_delta ''hel''),
           ChannelMessage (at_clock 0) (input_delta ''lo''),
           ChannelMessage (at_clock 0) turn_complete_message] connected_example)
       = [AppendUserItem 1]
   \<and> currentInputTranscription
     (run [ChannelMessage (at_clock 0) (input_delta ''hel''),
           ChannelMessage (at_clock 0) (input_delta ''lo''),
           ChannelMessage (at_clock 0) turn_complete_message] connected_example) 1 = []
   \<and> transcriptions
     (run [ChannelMessage (at_clock 0) (input_delta ''hel''),
           ChannelMessage (at_clock 0) (input_delta ''lo''),
           ChannelMessage (at_clock 0) turn_complete_message,
           Render (\<lambda>i. 5)] connected_example)
       = [\<lparr>type' = User, text' = [], timestamp = 5\<rparr>]
   \<and> transcriptions
     (run [ChannelMessage (at_clock 0) (input_delta ''hel''),
           ChannelMessage (at_clock 0) (input_delta ''lo''),
           ChannelMessage (at_clock 0) turn_complete_message,
           Render (\<lambda>i. 5)] connected_example)
       \<noteq> [\<lparr>type' = User, text' = ''hello'', timestamp = 5\<rparr>]"
  by (simp add: connected_example_value at_clock_def input_delta_def turn_complete_message_def
      onmessage_def handleAudio_skips handleTranscriptions_def handleTurnComplete_def
      setTranscriptions_def append_text_def render_def run_updater_def slice_last_def)

section \<open>The bounded log\<close>

lemma slice_last_snoc: "slice_last (Suc n) (xs @ [x]) = slice_last n xs @ [x]"
  by (simp add: slice_last_def)

lemma slice_last_twice: "slice_last n (slice_last k xs) = slice_last (min n k) xs"
  unfolding slice_last_def length_drop drop_drop
  by (rule arg_cong [of _ _ "\<lambda>i. drop i xs"]) arith

lemma length_slice_last: "length (slice_last n xs) = min (length xs) n"
  by (simp add: slice_last_def)

lemma slice_last_push: "slice_last 10 (slice_last 11 xs) @ [x] = slice_last 11 (xs @ [x])"
proof -
  have "slice_last 11 (xs @ [x]) = slice_last (Suc 10) (xs @ [x])" by simp
  also have "\<dots> = slice_last 10 xs @ [x]" by (rule slice_last_snoc)
  finally show ?thesis by (simp add: slice_last_twice)
qed

lemma slice_last_push_two:
  "slice_last 10 (slice_last 10 xs @ [x]) @ [y] = slice_last 9 xs @ [x, y]"
proof -
  have "slice_last 10 (slice_last 10 xs @ [x]) = slice_last (Suc 9) (slice_last 10 xs @ [x])"
    by simp
  also have "\<dots> = slice_last 9 (slice_last 10 xs) @ [x]" by (rule slice_last_snoc)
  finally show ?thesis by (simp add: slice_last_twice)
qed

text \<open>
  C10. When both roles have accumulated text at the end of a turn, the handler of that
  one event queues two updaters, the user's before the model's. The render that
  follows (nothing else being queued) appends their two items, the user's before the
  model's, to the last nine items of the log: a log of eleven items loses its two
  oldest, a log of ten its oldest, a shorter one none. Both items carry the empty text,
  the accumulators having been cleared before the render.
\<close>

theorem both_roles_commit_two:
  assumes tc: "turnComplete m" and ret: "onmessage env m s = Inr s'"
    and a_in: "a_in = currentInputTranscription s (call env) @ delta_text (inputTranscription m)"
    and a_out: "a_out = currentOutputTranscription s (call env) @ delta_text (outputTranscription m)"
    and both: "a_in \<noteq> []" "a_out \<noteq> []"
    and rendered: "pendingTranscriptions s = []"
    and s'': "s'' = render dateNow s'"
    and u: "u = \<lparr>type' = User, text' = [], timestamp = dateNow 0\<rparr>"
    and v: "v = \<lparr>type' = Model, text' = [], timestamp = dateNow 1\<rparr>"
  shows "pendingTranscriptions s' = [AppendUserItem (call env), AppendModelItem (call env)]
    \<and> transcriptions s' = transcriptions s
    \<and> transcriptions s'' = slice_last 9 (transcriptions s) @ [u, v]
    \<and> length (transcriptions s'') = min (length (transcriptions s)) 9 + 2
    \<and> (length (transcriptions s) \<le> 9 \<longrightarrow> transcriptions s'' = transcriptions s @ [u, v])
    \<and> (length (transcriptions s) = 10 \<longrightarrow> transcriptions s'' = drop 1 (transcriptions s) @ [u, v])
    \<and> (length (transcriptions s) = 11 \<longrightarrow> transcriptions s'' = drop 2 (transcriptions s) @ [u, v])"
proof -
  note t = onmessage_turn [OF tc ret, folded a_in a_out]
  have queue: "pendingTranscriptions s' = [AppendUserItem (call env), AppendModelItem (call env)]"
    using t both rendered by simp
  have same: "transcriptions s' = transcriptions s" using t by simp
  have acc: "currentInputTranscription s' (call env) = []"
    "currentOutputTranscription s' (call env) = []"
    using t by simp_all
  have "transcriptions s'' = slice_last 10 (slice_last 10 (transcriptions s) @ [u]) @ [v]"
    unfolding s'' by (simp add: render_two [OF queue] run_updater_def acc same u v)
  then have log: "transcriptions s'' = slice_last 9 (transcriptions s) @ [u, v]"
    by (simp only: slice_last_push_two)
  show ?thesis
    by (simp add: queue same log length_slice_last) (simp add: slice_last_def)
qed

text \<open>The theorem on a full log and a message with text of both roles.\<close>

theorem both_roles_commit_two_witness:
  "pendingTranscriptions (step (ChannelMessage (at_clock 0) both_message) full_log_example)
     = [AppendUserItem 1, AppendModelItem 1]
   \<and> transcriptions
       (render (\<lambda>i. 5 + int i) (step (ChannelMessage (at_clock 0) both_message) full_log_example))
     = replicate 9 \<lparr>type' = User, text' = [], timestamp = 0\<rparr>
       @ [\<lparr>type' = User, text' = [], timestamp = 5\<rparr>,
          \<lparr>type' = Model, text' = [], timestamp = 6\<rparr>]
   \<and> length (transcriptions
       (render (\<lambda>i. 5 + int i) (step (ChannelMessage (at_clock 0) both_message) full_log_example)))
       = 11"
proof -
  let ?s' = "step (ChannelMessage (at_clock 0) both_message) full_log_example"
  have tc: "turnComplete both_message" by (simp add: both_message_def)
  have ret: "onmessage (at_clock 0) both_message full_log_example = Inr ?s'"
    by (simp add: onmessage_def handleAudio_skips both_message_def)
  have a_in: "''hi'' = currentInputTranscription full_log_example (call (at_clock 0))
      @ delta_text (inputTranscription both_message)"
    and a_out: "''hello'' = currentOutputTranscription full_log_example (call (at_clock 0))
      @ delta_text (outputTranscription both_message)"
    and rendered: "pendingTranscriptions full_log_example = []"
    by (simp_all add: full_log_example_def connected_example_value both_message_def
        delta_text_def append_text_def)
  have log: "transcriptions full_log_example
      = replicate 11 \<lparr>type' = User, text' = [], timestamp = 0\<rparr>"
    by (simp add: full_log_example_def)
  have c: "call (at_clock 0) = 1" by (simp add: at_clock_def)
  note th = both_roles_commit_two [OF tc ret a_in a_out _ _ rendered refl refl refl,
      of "\<lambda>i. 5 + int i"]
  show ?thesis
    using th by (simp add: c log slice_last_def del: step.simps)
qed

lemma completes_returns:
  assumes "completes (env, m)"
  shows "\<exists>s'. onmessage env m s = Inr s'"
  using assms
  by (auto simp: completes_def onmessage_def handleAudio_def Let_def split: option.splits)

lemma step_delta:
  assumes "\<not> turnComplete m" "completes (env, m)"
  shows "transcriptions (step (ChannelMessage env m) s) = transcriptions s
    \<and> pendingTranscriptions (step (ChannelMessage env m) s) = pendingTranscriptions s
    \<and> currentInputTranscription (step (ChannelMessage env m) s) (call env)
        = currentInputTranscription s (call env) @ delta_text (inputTranscription m)
    \<and> currentOutputTranscription (step (ChannelMessage env m) s) (call env)
        = currentOutputTranscription s (call env) @ delta_text (outputTranscription m)"
proof -
  obtain s' where r: "onmessage env m s = Inr s'"
    using completes_returns [OF assms(2)] by blast
  show ?thesis using onmessage_delta [OF assms(1) r] by (simp add: r)
qed

lemma run_deltas:
  assumes "list_all (\<lambda>em. \<not> turnComplete (snd em)) ms"
    and "list_all (\<lambda>em. call (fst em) = c) ms"
    and "list_all completes ms"
  shows "transcriptions (run (turn_events ms) s) = transcriptions s
    \<and> pendingTranscriptions (run (turn_events ms) s) = pendingTranscriptions s
    \<and> currentInputTranscription (run (turn_events ms) s) c
        = currentInputTranscription s c @ turn_input ms
    \<and> currentOutputTranscription (run (turn_events ms) s) c
        = currentOutputTranscription s c @ turn_output ms"
  using assms
proof (induction ms arbitrary: s)
  case Nil
  then show ?case by (simp add: turn_events_def turn_input_def turn_output_def)
next
  case (Cons em ms)
  obtain env m where em: "em = (env, m)" by (cases em)
  have d: "\<not> turnComplete m" "completes (env, m)" and c: "call env = c"
    using Cons.prems by (simp_all add: em)
  have rest: "list_all (\<lambda>em. \<not> turnComplete (snd em)) ms"
    "list_all (\<lambda>em. call (fst em) = c) ms" "list_all completes ms"
    using Cons.prems by simp_all
  have ev: "turn_events (em # ms) = ChannelMessage env m # turn_events ms"
    by (simp add: turn_events_def em)
  have r: "run (turn_events (em # ms)) s = run (turn_events ms) (step (ChannelMessage env m) s)"
    by (simp add: ev del: step.simps)
  have tin: "turn_input (em # ms) = delta_text (inputTranscription m) @ turn_input ms"
    and tout: "turn_output (em # ms) = delta_text (outputTranscription m) @ turn_output ms"
    by (simp_all add: turn_input_def turn_output_def em)
  show ?case
    using Cons.IH [OF rest, of "step (ChannelMessage env m) s"] step_delta [OF d, of s]
    by (simp add: r tin tout c del: step.simps)
qed

lemma one_turn:
  assumes turn: "one_item_turn c ms"
    and acc: "currentInputTranscription s c = []" "currentOutputTranscription s c = []"
  shows "transcriptions (run (turn_events ms) s) = transcriptions s
    \<and> pendingTranscriptions (run (turn_events ms) s)
        = pendingTranscriptions s
          @ [if turn_role ms = User then AppendUserItem c else AppendModelItem c]
    \<and> currentInputTranscription (run (turn_events ms) s) c = []
    \<and> currentOutputTranscription (run (turn_events ms) s) c = []"
proof -
  from turn have ne: "ms \<noteq> []" by (simp add: one_item_turn_def)
  obtain env m where l: "last ms = (env, m)" by (cases "last ms")
  let ?ds = "butlast ms"
  have ms: "ms = ?ds @ [(env, m)]" using ne l by (metis append_butlast_last_id)
  have tc: "turnComplete m" using turn l by (simp add: one_item_turn_def)
  have ds: "list_all (\<lambda>em. \<not> turnComplete (snd em)) ?ds"
    using turn by (simp add: one_item_turn_def)
  have "list_all completes ms" using turn by (simp add: one_item_turn_def)
  then have "list_all completes (?ds @ [(env, m)])" by (metis ms)
  then have cds: "list_all completes ?ds" and cm: "completes (env, m)" by simp_all
  have "list_all (\<lambda>em. call (fst em) = c) ms" using turn by (simp add: one_item_turn_def)
  then have "list_all (\<lambda>em. call (fst em) = c) (?ds @ [(env, m)])" by (metis ms)
  then have calls: "list_all (\<lambda>em. call (fst em) = c) ?ds" and c: "call env = c" by simp_all
  have xor: "(turn_input ms = []) \<noteq> (turn_output ms = [])"
    using turn by (simp add: one_item_turn_def)
  let ?s1 = "run (turn_events ?ds) s"
  have ev: "turn_events ms = turn_events ?ds @ [ChannelMessage env m]"
    by (subst ms) (simp add: turn_events_def)
  have tin: "turn_input ms = turn_input ?ds @ delta_text (inputTranscription m)"
    by (subst ms) (simp add: turn_input_def)
  have tout: "turn_output ms = turn_output ?ds @ delta_text (outputTranscription m)"
    by (subst ms) (simp add: turn_output_def)
  have s1: "transcriptions ?s1 = transcriptions s"
    "pendingTranscriptions ?s1 = pendingTranscriptions s"
    "currentInputTranscription ?s1 c = turn_input ?ds"
    "currentOutputTranscription ?s1 c = turn_output ?ds"
    using run_deltas [OF ds calls cds, of s] acc by simp_all
  obtain s' where r: "onmessage env m ?s1 = Inr s'"
    using completes_returns [OF cm] by blast
  have fin: "run (turn_events ms) s = s'"
    by (simp add: ev run_append r)
  note t = onmessage_turn [OF tc r, unfolded c s1 tin [symmetric] tout [symmetric]]
  have "pendingTranscriptions s'
      = pendingTranscriptions s
        @ [if turn_role ms = User then AppendUserItem c else AppendModelItem c]"
    using t xor by (auto simp: turn_role_def)
  moreover have "transcriptions s' = transcriptions s"
    "currentInputTranscription s' c = []" "currentOutputTranscription s' c = []"
    using t by simp_all
  ultimately show ?thesis by (simp add: fin)
qed

lemma rendered_turn:
  assumes turn: "one_item_turn c (fst tr)"
    and acc: "currentInputTranscription s c = []" "currentOutputTranscription s c = []"
    and rendered: "pendingTranscriptions s = []"
  shows "transcriptions (run (rendered_turn_events tr) s)
        = slice_last 10 (transcriptions s) @ [rendered_item tr]
    \<and> pendingTranscriptions (run (rendered_turn_events tr) s) = []
    \<and> currentInputTranscription (run (rendered_turn_events tr) s) c = []
    \<and> currentOutputTranscription (run (rendered_turn_events tr) s) c = []"
proof -
  let ?s1 = "run (turn_events (fst tr)) s"
  note o = one_turn [OF turn acc]
  have q: "pendingTranscriptions ?s1
      = [if turn_role (fst tr) = User then AppendUserItem c else AppendModelItem c]"
    using o rendered by simp
  have r: "run (rendered_turn_events tr) s = render (snd tr) ?s1"
    by (simp add: rendered_turn_events_def run_append)
  have "transcriptions (render (snd tr) ?s1)
      = slice_last 10 (transcriptions s) @ [rendered_item tr]"
    using o by (cases "turn_role (fst tr)")
      (simp_all add: render_one [OF q] run_updater_def rendered_item_def)
  then show ?thesis using o by (simp add: r)
qed

lemma run_rendered_turns:
  assumes "\<forall>tr \<in> set turns. one_item_turn c (fst tr)"
    and "currentInputTranscription s c = []" "currentOutputTranscription s c = []"
    and "pendingTranscriptions s = []"
  shows "transcriptions (run (concat (map rendered_turn_events turns)) s)
      = foldl (\<lambda>log tr. slice_last 10 log @ [rendered_item tr]) (transcriptions s) turns"
  using assms
proof (induction turns arbitrary: s)
  case Nil
  then show ?case by simp
next
  case (Cons tr turns)
  have t: "one_item_turn c (fst tr)" using Cons.prems by simp
  note o = rendered_turn [OF t Cons.prems(2,3,4)]
  have "transcriptions (run (concat (map rendered_turn_events turns))
          (run (rendered_turn_events tr) s))
      = foldl (\<lambda>log tr. slice_last 10 log @ [rendered_item tr])
          (transcriptions (run (rendered_turn_events tr) s)) turns"
    using Cons.prems o by (intro Cons.IH) simp_all
  then show ?case by (simp add: run_append o)
qed

lemma foldl_push:
  "foldl (\<lambda>log x. slice_last 10 log @ [f x]) [] xs = slice_last 11 (map f xs)"
proof (induction xs rule: rev_induct)
  case Nil
  then show ?case by (simp add: slice_last_def)
next
  case (snoc x xs)
  then show ?case by (simp add: slice_last_push)
qed

text \<open>
  C6. After N rendered turns of one channel, each of which commits exactly one item,
  on a log that was empty with nothing queued, the log holds the items of the last
  eleven turns in the order of the turns: its length is the minimum of N and 11, and
  the oldest items are the ones dropped.
\<close>

theorem bounded_log:
  assumes turns: "\<forall>tr \<in> set turns. one_item_turn c (fst tr)"
    and empty: "transcriptions s = []"
    and acc: "currentInputTranscription s c = []" "currentOutputTranscription s c = []"
    and rendered: "pendingTranscriptions s = []"
    and s': "s' = run (concat (map rendered_turn_events turns)) s"
  shows "transcriptions s' = slice_last 11 (map rendered_item turns)
    \<and> transcriptions s' = drop (length turns - 11) (map rendered_item turns)
    \<and> length (transcriptions s') = min (length turns) 11"
proof -
  have "transcriptions s' = slice_last 11 (map rendered_item turns)"
    unfolding s' by (simp add: run_rendered_turns [OF turns acc rendered] empty foldl_push)
  then show ?thesis by (simp add: slice_last_def)
qed

lemma hello_turn_facts:
  "one_item_turn 1 hello_turn"
  "rendered_item (hello_turn, dateNow) = \<lparr>type' = User, text' = [], timestamp = dateNow 0\<rparr>"
  by (simp_all add: hello_turn_def one_item_turn_def rendered_item_def turn_role_def
      turn_input_def turn_output_def completes_def input_delta_def turn_complete_message_def
      at_clock_def delta_text_def append_text_def)

text \<open>
  The theorem on twelve turns of the scenario, from the connected example; the render
  of turn \<open>i\<close> reads the clock \<open>i\<close>, and the item of turn 0 is the one dropped.
\<close>

theorem bounded_log_witness:
  "transcriptions
     (run (concat (map rendered_turn_events (map (\<lambda>i. (hello_turn, \<lambda>k. int i)) [0..<12])))
        connected_example)
     = map (\<lambda>i. \<lparr>type' = User, text' = [], timestamp = int i\<rparr>) [1..<12]
   \<and> length (transcriptions
       (run (concat (map rendered_turn_events (map (\<lambda>i. (hello_turn, \<lambda>k. int i)) [0..<12])))
          connected_example)) = 11"
proof -
  let ?turns = "map (\<lambda>i. (hello_turn, \<lambda>k::nat. int i)) [0..<12]"
  let ?s' = "run (concat (map rendered_turn_events ?turns)) connected_example"
  have turns: "\<forall>tr \<in> set ?turns. one_item_turn 1 (fst tr)"
    using hello_turn_facts(1) by simp
  have init: "transcriptions connected_example = []"
    "currentInputTranscription connected_example 1 = []"
    "currentOutputTranscription connected_example 1 = []"
    "pendingTranscriptions connected_example = []"
    by (simp_all add: connected_example_value)
  note th = bounded_log [OF turns init refl]
  have log: "transcriptions ?s' = drop (length ?turns - 11) (map rendered_item ?turns)"
    by (rule th [THEN conjunct2, THEN conjunct1])
  have len: "length (transcriptions ?s') = min (length ?turns) 11"
    by (rule th [THEN conjunct2, THEN conjunct2])
  have "drop (length ?turns - 11) (map rendered_item ?turns)
      = map (\<lambda>i. \<lparr>type' = User, text' = [], timestamp = int i\<rparr>) [1..<12]"
    by (simp add: drop_map o_def hello_turn_facts(2) del: upt.simps)
  with log len show ?thesis by simp
qed

end
